theory Spec2Isabelle
  imports Complex_Main "HOL-Library.Word"
begin

section \<open>Values and exceptions of the script\<close>

text \<open>
  \<^verbatim>\<open>script.js\<close> holds two revisions of the page script. The timer logic of
  \<^verbatim>\<open>updateUI\<close>, \<^verbatim>\<open>argmax\<close>, \<^verbatim>\<open>initializeModel\<close>, \<^verbatim>\<open>startWebcam\<close> and
  \<^verbatim>\<open>startPredictionLoop\<close> are embedded from the second revision; the function
  \<^verbatim>\<open>preprocess\<close> exists only in the first one and is embedded from there. The calls
  into the browser, tf.js and onnx.js are the environment: their results are inputs.

  Numbers are JavaScript doubles (and \<^verbatim>\<open>Float32Array\<close> cells). They are embedded as
  \<^typ>\<open>real\<close>: rounding and the two infinities are outside the model. A cell that can
  hold NaN (a score of the model output, a cell of the tensor built by \<^verbatim>\<open>preprocess\<close>)
  is an \<^typ>\<open>'a option\<close> with \<^const>\<open>None\<close> for NaN. A read of an array is an option
  as well, with \<^const>\<open>None\<close> for \<^verbatim>\<open>undefined\<close>. The three elements that the
  script looks up by id are taken to exist, so that an assignment to one of their
  properties does not raise.
\<close>

datatype js_error =
    TypeError  \<comment> \<open>raised by the script itself: a property read on \<^verbatim>\<open>undefined\<close>\<close>
  | Thrown     \<comment> \<open>raised or rejected by the browser, tf.js or onnx.js\<close>

datatype console_entry = Log string | Error string js_error

definition js_index :: "'a list \<Rightarrow> nat \<Rightarrow> 'a option" where
  "js_index xs i = (if i < length xs then Some (xs ! i) else None)"

text \<open>\<^verbatim>\<open>a > b\<close> on two reads of an array of numbers: the outer option is the read
  (\<^verbatim>\<open>undefined\<close> past the end), the inner one the cell (NaN). \<^verbatim>\<open>undefined\<close> converts
  to NaN, and a comparison with NaN on either side is false.\<close>

fun js_gt :: "'a::linorder option option \<Rightarrow> 'a option option \<Rightarrow> bool" where
  "js_gt (Some (Some x)) (Some (Some y)) = (y < x)"
| "js_gt _ _ = False"

text \<open>\<^verbatim>\<open>s.replace(a, b)\<close> with one-character strings: only the first occurrence.\<close>

fun replace_first :: "char \<Rightarrow> char \<Rightarrow> string \<Rightarrow> string" where
  "replace_first a b [] = []"
| "replace_first a b (c # cs) = (if c = a then b # cs else c # replace_first a b cs)"

section \<open>Module state and the DOM properties the script writes\<close>

record page =
  session_created :: bool
  modelLoaded :: bool
  isPredicting :: bool
  poorQualityStartTime :: "int option"
  overlayMessage_textContent :: string
  overlayMessage_display :: string
  captureButton_textContent :: string
  captureButton_disabled :: bool
  console :: "console_entry list"
  getUserMedia_pending :: nat  \<comment> \<open>\<^verbatim>\<open>getUserMedia\<close> promises not yet settled\<close>
  video_srcObject :: bool  \<comment> \<open>a camera stream is attached\<close>
  video_onloadedmetadata :: bool  \<comment> \<open>the handler is installed\<close>
  video_playing :: bool
  raf_queue :: nat  \<comment> \<open>\<^verbatim>\<open>runInference\<close> callbacks queued by \<^verbatim>\<open>requestAnimationFrame\<close>\<close>

definition labels :: "string list" where
  "labels = [''good_quality'', ''blurry'', ''too_dark'', ''poor_framing'']"

definition TIMEOUT_SECONDS :: real where
  "TIMEOUT_SECONDS = 20"

text \<open>The sign U+1F6AB that starts the overlay message, as its UTF-8 bytes.\<close>

definition no_entry_sign :: string where
  "no_entry_sign = [CHR 0xF0, CHR 0x9F, CHR 0x9A, CHR 0xAB]"

section \<open>argmax\<close>

function argmax_loop ::
  "'a::linorder option list \<Rightarrow> nat \<Rightarrow> 'a option option \<Rightarrow> nat \<Rightarrow> nat" where
  "argmax_loop array i maxv maxIndex =
     (if i < length array then
        (if js_gt (js_index array i) maxv
         then argmax_loop array (i + 1) (js_index array i) i
         else argmax_loop array (i + 1) maxv maxIndex)
      else maxIndex)"
  by pat_completeness auto
termination
  by (relation "measure (\<lambda>(array, i, maxv, maxIndex). length array - i)") auto

declare argmax_loop.simps [simp del]

definition argmax :: "'a::linorder option list \<Rightarrow> nat" where
  "argmax array = argmax_loop array 1 (js_index array 0) 0"

section \<open>updateUI: the quality gate\<close>

text \<open>
  \<^verbatim>\<open>Date.now()\<close> is read at most twice in one call: \<open>now1\<close> is the reading
  stored as the start of a streak (taken only when no start is stored), \<open>now2\<close> the
  reading compared against it. Both are integer milliseconds.

  An exception carries the page as it is when it is raised. With an \<^verbatim>\<open>undefined\<close>
  label the test against \<^verbatim>\<open>'good_quality'\<close> fails and \<^verbatim>\<open>predictedLabel.replace\<close>
  raises while the right-hand side of the first assignment is evaluated.
\<close>

definition updateUI :: "string option \<Rightarrow> int \<Rightarrow> int \<Rightarrow> page \<Rightarrow> (js_error \<times> page) + page" where
  "updateUI predictedLabel now1 now2 s =
     (if predictedLabel = Some ''good_quality'' then
        Inr (s\<lparr>overlayMessage_display := ''none'',
               captureButton_textContent := ''Take Picture'',
               captureButton_disabled := False,
               poorQualityStartTime := None\<rparr>)
      else
        (case predictedLabel of
           None \<Rightarrow> Inl (TypeError, s)
         | Some l \<Rightarrow>
             let s1 = s\<lparr>overlayMessage_textContent :=
                          no_entry_sign @ '' '' @ replace_first CHR ''_'' CHR '' '' l @ '' detected!'',
                        overlayMessage_display := ''block'',
                        captureButton_textContent := ''Take Anyway''\<rparr>;
                 started = (case poorQualityStartTime s1 of None \<Rightarrow> now1 | Some t0 \<Rightarrow> t0);
                 s2 = s1\<lparr>poorQualityStartTime := Some started\<rparr>;
                 elapsedSeconds = real_of_int (now2 - started) / 1000
             in if elapsedSeconds \<ge> TIMEOUT_SECONDS then
                  Inr (s2\<lparr>overlayMessage_textContent := ''You can take the picture now.'',
                          captureButton_disabled := False\<rparr>)
                else
                  Inr (s2\<lparr>captureButton_disabled := True\<rparr>)))"

section \<open>The prediction loop\<close>

text \<open>
  What the environment contributes to one run of \<^verbatim>\<open>runInference\<close>: the result of the
  tf.js pipeline followed by \<^verbatim>\<open>await session.run\<close> (an exception, or the data arrays
  of the output map in iteration order), and the two clock readings.
\<close>

record tick =
  run_outcome :: "js_error + real option list list"
  now_start :: int
  now_check :: int

text \<open>Lines 201 to 224: everything up to the computation of \<^verbatim>\<open>predictedLabel\<close>.
  \<^verbatim>\<open>outputMap.values().next().value\<close> is \<^verbatim>\<open>undefined\<close> for an empty map, and reading
  \<^verbatim>\<open>.data\<close> of it raises.\<close>

definition predictedLabel :: "tick \<Rightarrow> js_error + string option" where
  "predictedLabel t =
     (case run_outcome t of
        Inl e \<Rightarrow> Inl e
      | Inr outputMap \<Rightarrow>
          (case js_index outputMap 0 of
             None \<Rightarrow> Inl TypeError
           | Some outputTensor_data \<Rightarrow>
               let prediction = argmax outputTensor_data
               in Inr (js_index labels prediction)))"

definition try_body :: "tick \<Rightarrow> page \<Rightarrow> (js_error \<times> page) + page" where
  "try_body t s =
     (case predictedLabel t of
        Inl e \<Rightarrow> Inl (e, s)
      | Inr l \<Rightarrow> updateUI l (now_start t) (now_check t) s)"

text \<open>The \<^verbatim>\<open>catch\<close> block logs and goes on from the page as the exception left it;
  \<^verbatim>\<open>tf.dispose()\<close> touches nothing of the page; then the next run is queued.
  One run is taken as atomic: the \<^verbatim>\<open>await\<close>s inside it are not interleaving points
  of the model.\<close>

definition runInference :: "tick \<Rightarrow> page \<Rightarrow> page" where
  "runInference t s =
     (let s1 = (case try_body t s of
                  Inr s' \<Rightarrow> s'
                | Inl (e, s') \<Rightarrow> s'\<lparr>console := console s' @ [Error ''Prediction failed:'' e]\<rparr>)
      in s1\<lparr>raf_queue := raf_queue s1 + 1\<rparr>)"

definition startPredictionLoop :: "tick \<Rightarrow> page \<Rightarrow> page" where
  "startPredictionLoop t s =
     (if \<not> modelLoaded s \<or> isPredicting s then s
      else runInference t (s\<lparr>isPredicting := True\<rparr>))"

text \<open>The runs of \<^verbatim>\<open>runInference\<close> on successive frames, one after the other.\<close>

fun prediction_loop :: "tick list \<Rightarrow> page \<Rightarrow> page" where
  "prediction_loop [] s = s"
| "prediction_loop (t # ts) s = prediction_loop ts (runInference t s)"

section \<open>Start-up\<close>

definition startWebcam :: "bool \<Rightarrow> page \<Rightarrow> page" where
  "startWebcam hasGetUserMedia s =
     (if hasGetUserMedia then s\<lparr>getUserMedia_pending := getUserMedia_pending s + 1\<rparr> else s)"

definition getUserMedia_then :: "page \<Rightarrow> page" where
  "getUserMedia_then s = s\<lparr>video_srcObject := True, video_onloadedmetadata := True\<rparr>"

definition getUserMedia_catch :: "js_error \<Rightarrow> page \<Rightarrow> page" where
  "getUserMedia_catch e s =
     s\<lparr>console := console s @ [Error ''Webcam access denied:'' e],
       overlayMessage_textContent := ''Webcam access denied. Please enable it.'',
       overlayMessage_display := ''block''\<rparr>"

definition onloadedmetadata :: "tick \<Rightarrow> page \<Rightarrow> page" where
  "onloadedmetadata t s = startPredictionLoop t (s\<lparr>video_playing := True\<rparr>)"

text \<open>How the \<^verbatim>\<open>try\<close> block of \<^verbatim>\<open>initializeModel\<close> can go: the constructor of the
  session raises, \<^verbatim>\<open>loadModel\<close> rejects, or the model loads.\<close>

datatype load_outcome = ConstructorThrows js_error | LoadRejects js_error | Loaded

definition initializeModel :: "load_outcome \<Rightarrow> bool \<Rightarrow> page \<Rightarrow> page" where
  "initializeModel outcome hasGetUserMedia s =
     (let failed = (\<lambda>e s'.
            s'\<lparr>console := console s' @ [Error ''Failed to load model:'' e],
               overlayMessage_textContent := ''Error loading model. Check console.'',
               overlayMessage_display := ''block''\<rparr>)
      in case outcome of
           ConstructorThrows e \<Rightarrow> failed e s
         | LoadRejects e \<Rightarrow> failed e (s\<lparr>session_created := True\<rparr>)
         | Loaded \<Rightarrow>
             startWebcam hasGetUserMedia
               (s\<lparr>session_created := True, modelLoaded := True,
                  console := console s @ [Log ''ONNX model loaded successfully!'']\<rparr>))"

text \<open>
  After \<^verbatim>\<open>window.onload\<close> the browser can only call what the script has registered:
  the two handlers of a pending \<^verbatim>\<open>getUserMedia\<close> promise, the
  \<^verbatim>\<open>onloadedmetadata\<close> handler of the video once it is installed, and a queued
  animation-frame callback. An event with nothing registered for it does nothing.
\<close>

datatype event =
    CameraGranted
  | CameraDenied js_error
  | LoadedMetadata tick
  | AnimationFrame tick

definition fire :: "event \<Rightarrow> page \<Rightarrow> page" where
  "fire ev s =
     (case ev of
        CameraGranted \<Rightarrow>
          if getUserMedia_pending s = 0 then s
          else getUserMedia_then (s\<lparr>getUserMedia_pending := getUserMedia_pending s - 1\<rparr>)
      | CameraDenied e \<Rightarrow>
          if getUserMedia_pending s = 0 then s
          else getUserMedia_catch e (s\<lparr>getUserMedia_pending := getUserMedia_pending s - 1\<rparr>)
      | LoadedMetadata t \<Rightarrow>
          if video_onloadedmetadata s then onloadedmetadata t s else s
      | AnimationFrame t \<Rightarrow>
          if raf_queue s = 0 then s
          else runInference t (s\<lparr>raf_queue := raf_queue s - 1\<rparr>))"

fun run :: "event list \<Rightarrow> page \<Rightarrow> page" where
  "run [] s = s"
| "run (ev # evs) s = run evs (fire ev s)"

text \<open>The page when \<^verbatim>\<open>window.onload\<close> fires: the module variables have their
  initial values and nothing is registered yet. The DOM texts come from the HTML and
  are left open.\<close>

definition fresh :: "page \<Rightarrow> bool" where
  "fresh s =
     (\<not> session_created s \<and> \<not> modelLoaded s \<and> \<not> isPredicting s \<and>
      poorQualityStartTime s = None \<and> getUserMedia_pending s = 0 \<and>
      \<not> video_srcObject s \<and> \<not> video_onloadedmetadata s \<and> \<not> video_playing s \<and>
      raf_queue s = 0)"

section \<open>preprocess (first revision)\<close>

text \<open>
  An \<^verbatim>\<open>ImageData\<close> holds four bytes (red, green, blue, alpha) for each pixel, row by
  row. A cell of the result is \<^const>\<open>None\<close> where the source computes NaN from a read
  past the end of \<^verbatim>\<open>data\<close>. The three assignments of the loop body share the
  expression written once as \<open>normalize\<close>. A write past the end of a typed array is
  dropped, as is a list update past the end.
\<close>

record imageData =
  img_data :: "8 word list"
  img_width :: nat
  img_height :: nat

record tensor =
  tensor_data :: "real option list"
  tensor_type :: string
  tensor_dims :: "nat list"

definition mean :: "real list" where
  "mean = [0.485, 0.456, 0.406]"

definition std :: "real list" where
  "std = [0.229, 0.224, 0.225]"

definition normalize :: "8 word option \<Rightarrow> real \<Rightarrow> real \<Rightarrow> real option" where
  "normalize v m sd = (case v of None \<Rightarrow> None | Some b \<Rightarrow> Some ((real (unat b) / 255.0 - m) / sd))"

function preprocess_w ::
  "8 word list \<Rightarrow> nat \<Rightarrow> nat \<Rightarrow> nat \<Rightarrow> real option list \<times> nat \<Rightarrow> real option list \<times> nat" where
  "preprocess_w data width h w (tensorData, offset) =
     (if w < width then
        let index = (h * width + w) * 4;
            tensorData1 = tensorData[offset := normalize (js_index data (index + 0)) (mean ! 0) (std ! 0)];
            tensorData2 = tensorData1[offset + 1 := normalize (js_index data (index + 1)) (mean ! 1) (std ! 1)];
            tensorData3 = tensorData2[offset + 2 := normalize (js_index data (index + 2)) (mean ! 2) (std ! 2)]
        in preprocess_w data width h (w + 1) (tensorData3, offset + 3)
      else (tensorData, offset))"
  by pat_completeness auto
termination
  by (relation "measure (\<lambda>(data, width, h, w, st). width - w)") auto

declare preprocess_w.simps [simp del]

function preprocess_h ::
  "8 word list \<Rightarrow> nat \<Rightarrow> nat \<Rightarrow> nat \<Rightarrow> real option list \<times> nat \<Rightarrow> real option list \<times> nat" where
  "preprocess_h data width height h st =
     (if h < height then preprocess_h data width height (h + 1) (preprocess_w data width h 0 st)
      else st)"
  by pat_completeness auto
termination
  by (relation "measure (\<lambda>(data, width, height, h, st). height - h)") auto

declare preprocess_h.simps [simp del]

definition preprocess :: "imageData \<Rightarrow> tensor" where
  "preprocess imageData =
     (let data = img_data imageData; width = img_width imageData; height = img_height imageData;
          tensorData = replicate (3 * width * height) (Some 0);
          (tensorData', offset) = preprocess_h data width height 0 (tensorData, 0)
      in \<lparr>tensor_data = tensorData', tensor_type = ''float32'',
          tensor_dims = [1, 3, height, width]\<rparr>)"

section \<open>Notions used in the statements and proofs\<close>

text \<open>The flat position of an element of a tensor: onnx.js keeps the data in row-major
  order of the dims.\<close>

definition row_major :: "nat list \<Rightarrow> nat list \<Rightarrow> nat" where
  "row_major dims idx = foldl (\<lambda>acc (d, i). acc * d + i) 0 (zip dims idx)"

definition tensor_at :: "tensor \<Rightarrow> nat list \<Rightarrow> real option" where
  "tensor_at t idx = tensor_data t ! row_major (tensor_dims t) idx"

text \<open>The 224 by 224 frame, as the canvas delivers it, whose pixels all have one colour.\<close>

definition uniform_frame :: "8 word \<Rightarrow> 8 word \<Rightarrow> 8 word \<Rightarrow> imageData" where
  "uniform_frame r g b =
     \<lparr>img_data = map (\<lambda>i. [r, g, b, 255] ! (i mod 4)) [0..<4 * 224 * 224],
       img_width = 224, img_height = 224\<rparr>"

text \<open>What \<^verbatim>\<open>preprocess\<close> stores at flat position \<open>k\<close>: colour \<open>k mod 3\<close> of pixel \<open>k div 3\<close>.\<close>

definition slot :: "8 word list \<Rightarrow> nat \<Rightarrow> real option" where
  "slot data k = normalize (js_index data (4 * (k div 3) + k mod 3)) (mean ! (k mod 3)) (std ! (k mod 3))"

text \<open>The labels that a run of frames makes \<^verbatim>\<open>updateUI\<close> observe, in order.\<close>

fun observed :: "tick list \<Rightarrow> string list" where
  "observed [] = []"
| "observed (t # ts) =
     (case predictedLabel t of Inr (Some l) \<Rightarrow> l # observed ts | _ \<Rightarrow> observed ts)"

text \<open>The invariant of the loop guard, and the pages on which no event is enabled.\<close>

definition one_loop :: "page \<Rightarrow> bool" where
  "one_loop s = (raf_queue s \<le> 1 \<and> (\<not> isPredicting s \<longrightarrow> raf_queue s = 0))"

definition halted :: "page \<Rightarrow> bool" where
  "halted s = (getUserMedia_pending s = 0 \<and> \<not> video_onloadedmetadata s \<and> raf_queue s = 0)"

text \<open>A page as \<^verbatim>\<open>window.onload\<close> finds it, and a frame whose one output tensor holds
  the given numbers and whose two clock readings agree.\<close>

definition initial_page :: page where
  "initial_page =
     \<lparr>session_created = False, modelLoaded = False, isPredicting = False,
      poorQualityStartTime = None,
      overlayMessage_textContent = [], overlayMessage_display = ''none'',
      captureButton_textContent = ''Take Picture'', captureButton_disabled = False,
      console = [], getUserMedia_pending = 0, video_srcObject = False,
      video_onloadedmetadata = False, video_playing = False, raf_queue = 0\<rparr>"

definition frame :: "real list \<Rightarrow> int \<Rightarrow> tick" where
  "frame scores now =
     \<lparr>run_outcome = Inr [map Some scores], now_start = now, now_check = now\<rparr>"

section \<open>Example frames\<close>

lemma frame_clock: "now_start (frame scores n) = n" "now_check (frame scores n) = n"
  by (simp_all add: frame_def)

lemma frame_blurry: "predictedLabel (frame [1/10, 7/10, 1/10, 1/10] n) = Inr (Some ''blurry'')"
  by (simp add: frame_def predictedLabel_def js_index_def argmax_def argmax_loop.simps labels_def)

lemma frame_good: "predictedLabel (frame [7/10, 1/10, 1/10, 1/10] n) = Inr (Some ''good_quality'')"
  by (simp add: frame_def predictedLabel_def js_index_def argmax_def argmax_loop.simps labels_def)

lemma frame_unlabelled: "predictedLabel (frame [0, 0, 0, 0, 1] n) = Inr None"
  by (simp add: frame_def predictedLabel_def js_index_def argmax_def argmax_loop.simps labels_def)

lemma fresh_initial_page: "fresh initial_page"
  by (simp add: fresh_def initial_page_def)

section \<open>The quality gate\<close>

lemma updateUI_good:
  "updateUI (Some ''good_quality'') a b s =
     Inr (s\<lparr>overlayMessage_display := ''none'',
            captureButton_textContent := ''Take Picture'',
            captureButton_disabled := False,
            poorQualityStartTime := None\<rparr>)"
  by (simp add: updateUI_def)

lemma updateUI_poor:
  assumes "l \<noteq> ''good_quality''"
  shows "\<exists>s'. updateUI (Some l) a b s = Inr s' \<and>
     poorQualityStartTime s' = Some (case poorQualityStartTime s of None \<Rightarrow> a | Some t0 \<Rightarrow> t0) \<and>
     captureButton_textContent s' = ''Take Anyway'' \<and>
     overlayMessage_display s' = ''block'' \<and>
     (captureButton_disabled s' \<longleftrightarrow>
        real_of_int (b - (case poorQualityStartTime s of None \<Rightarrow> a | Some t0 \<Rightarrow> t0)) / 1000 < 20) \<and>
     (\<not> captureButton_disabled s' \<longrightarrow>
        overlayMessage_textContent s' = ''You can take the picture now.'')"
  using assms by (simp add: updateUI_def Let_def TIMEOUT_SECONDS_def not_le)

lemma runInference_poor:
  assumes "predictedLabel t = Inr (Some l)" "l \<noteq> ''good_quality''"
  shows "poorQualityStartTime (runInference t s) =
           Some (case poorQualityStartTime s of None \<Rightarrow> now_start t | Some t0 \<Rightarrow> t0) \<and>
         captureButton_textContent (runInference t s) = ''Take Anyway'' \<and>
         (captureButton_disabled (runInference t s) \<longleftrightarrow>
            real_of_int (now_check t - (case poorQualityStartTime s of None \<Rightarrow> now_start t | Some t0 \<Rightarrow> t0)) / 1000 < 20) \<and>
         (\<not> captureButton_disabled (runInference t s) \<longrightarrow>
            overlayMessage_textContent (runInference t s) = ''You can take the picture now.'')"
proof -
  obtain s' where s': "updateUI (Some l) (now_start t) (now_check t) s = Inr s'"
    and rest: "poorQualityStartTime s' = Some (case poorQualityStartTime s of None \<Rightarrow> now_start t | Some t0 \<Rightarrow> t0)"
       "captureButton_textContent s' = ''Take Anyway''"
       "captureButton_disabled s' \<longleftrightarrow>
        real_of_int (now_check t - (case poorQualityStartTime s of None \<Rightarrow> now_start t | Some t0 \<Rightarrow> t0)) / 1000 < 20"
       "\<not> captureButton_disabled s' \<longrightarrow>
        overlayMessage_textContent s' = ''You can take the picture now.''"
    using updateUI_poor[OF assms(2), of "now_start t" "now_check t" s] by blast
  have "runInference t s = s'\<lparr>raf_queue := raf_queue s' + 1\<rparr>"
    using assms(1) s' by (simp add: runInference_def try_body_def)
  with rest show ?thesis by simp
qed

lemma runInference_good:
  assumes "predictedLabel t = Inr (Some ''good_quality'')"
  shows "runInference t s =
     s\<lparr>overlayMessage_display := ''none'',
       captureButton_textContent := ''Take Picture'',
       captureButton_disabled := False,
       poorQualityStartTime := None,
       raf_queue := raf_queue s + 1\<rparr>"
  using assms by (simp add: runInference_def try_body_def updateUI_good)

lemma prediction_loop_snoc:
  "prediction_loop (ts @ [t]) s = runInference t (prediction_loop ts s)"
  by (induction ts arbitrary: s) simp_all

lemma streak_start_kept:
  assumes "\<forall>t \<in> set ts. \<exists>l. predictedLabel t = Inr (Some l) \<and> l \<noteq> ''good_quality''"
    and "poorQualityStartTime s = Some t0"
  shows "poorQualityStartTime (prediction_loop ts s) = Some t0"
  using assms
proof (induction ts arbitrary: s)
  case Nil
  then show ?case by simp
next
  case (Cons t ts)
  then obtain l where l: "predictedLabel t = Inr (Some l)" "l \<noteq> ''good_quality''"
    by auto
  have "poorQualityStartTime (runInference t s) = Some t0"
    using runInference_poor[OF l, of s] Cons.prems(2) by simp
  with Cons show ?case by simp
qed

lemma streak_start_set:
  assumes "\<forall>t \<in> set ts. \<exists>l. predictedLabel t = Inr (Some l) \<and> l \<noteq> ''good_quality''"
    and "poorQualityStartTime s = None" and "ts \<noteq> []"
  shows "poorQualityStartTime (prediction_loop ts s) = Some (now_start (ts ! 0))"
proof (cases ts)
  case Nil
  with assms show ?thesis by simp
next
  case (Cons t ts')
  then obtain l where l: "predictedLabel t = Inr (Some l)" "l \<noteq> ''good_quality''"
    using assms(1) by auto
  have "poorQualityStartTime (runInference t s) = Some (now_start t)"
    using runInference_poor[OF l, of s] assms(2) by simp
  then show ?thesis
    using streak_start_kept[of ts' "runInference t s" "now_start t"] assms(1) Cons by simp
qed

lemma streak_frame:
  assumes poor: "\<forall>t \<in> set ts. \<exists>l. predictedLabel t = Inr (Some l) \<and> l \<noteq> ''good_quality''"
    and start: "poorQualityStartTime s = None" and k: "k < length ts"
  shows "(captureButton_disabled (prediction_loop (take (Suc k) ts) s) \<longleftrightarrow>
            real_of_int (now_check (ts ! k) - now_start (ts ! 0)) / 1000 < 20) \<and>
         (\<not> captureButton_disabled (prediction_loop (take (Suc k) ts) s) \<longrightarrow>
            overlayMessage_textContent (prediction_loop (take (Suc k) ts) s) = ''You can take the picture now.'')"
proof -
  have tk: "take (Suc k) ts = take k ts @ [ts ! k]"
    using k by (simp add: take_Suc_conv_app_nth)
  obtain l where l: "predictedLabel (ts ! k) = Inr (Some l)" "l \<noteq> ''good_quality''"
    using poor k by (meson nth_mem)
  have pk: "\<forall>t \<in> set (take k ts). \<exists>l. predictedLabel t = Inr (Some l) \<and> l \<noteq> ''good_quality''"
    using poor by (meson in_set_takeD)
  have st: "(case poorQualityStartTime (prediction_loop (take k ts) s) of
               None \<Rightarrow> now_start (ts ! k) | Some t0 \<Rightarrow> t0) = now_start (ts ! 0)"
  proof (cases k)
    case 0
    then show ?thesis using start by simp
  next
    case (Suc k')
    then have "take k ts \<noteq> []" using k by auto
    then have "poorQualityStartTime (prediction_loop (take k ts) s) = Some (now_start (take k ts ! 0))"
      using streak_start_set[OF pk start] by simp
    then show ?thesis using Suc by simp
  qed
  show ?thesis
    using runInference_poor[OF l, of "prediction_loop (take k ts) s"]
    by (simp add: tk prediction_loop_snoc st)
qed

text \<open>
  Claim C1. Take a run of frames that are all labelled other than \<^verbatim>\<open>good_quality\<close>, begun
  with no start time stored, so that the streak starts at the reading \<open>T0\<close> taken in its
  first frame. At the frame with reading \<open>T\<close> the capture button is disabled when
  \<open>T - T0\<close> is under 20 seconds, and enabled with the overlay text
  \<^verbatim>\<open>You can take the picture now.\<close> when it is 20 seconds or more. With clock readings
  that do not decrease from frame to frame, an enabled button stays enabled on every
  later frame of the run.
\<close>

theorem grace_period_gate:
  assumes "poorQualityStartTime s = None"
    and "\<forall>t \<in> set ts. \<exists>l. predictedLabel t = Inr (Some l) \<and> l \<noteq> ''good_quality''"
    and "k < length ts"
  shows "let T0 = now_start (ts ! 0); T = now_check (ts ! k);
             s' = prediction_loop (take (Suc k) ts) s
         in (real_of_int (T - T0) / 1000 < 20 \<longrightarrow> captureButton_disabled s') \<and>
            (real_of_int (T - T0) / 1000 \<ge> 20 \<longrightarrow>
               \<not> captureButton_disabled s' \<and>
               overlayMessage_textContent s' = ''You can take the picture now.'') \<and>
            (sorted (map now_check ts) \<and> \<not> captureButton_disabled s' \<longrightarrow>
               (\<forall>k'. k \<le> k' \<and> k' < length ts \<longrightarrow>
                  \<not> captureButton_disabled (prediction_loop (take (Suc k') ts) s)))"
proof -
  have later: "\<not> captureButton_disabled (prediction_loop (take (Suc k') ts) s)"
    if mono: "sorted (map now_check ts)"
      and en: "\<not> captureButton_disabled (prediction_loop (take (Suc k) ts) s)"
      and k': "k \<le> k'" "k' < length ts" for k'
  proof -
    have "now_check (ts ! k) \<le> now_check (ts ! k')"
      using mono k' assms(3) by (simp add: sorted_iff_nth_mono)
    moreover have "\<not> real_of_int (now_check (ts ! k) - now_start (ts ! 0)) / 1000 < 20"
      using streak_frame[OF assms(2) assms(1) assms(3)] en by simp
    ultimately have "\<not> real_of_int (now_check (ts ! k') - now_start (ts ! 0)) / 1000 < 20"
      by simp
    then show ?thesis
      using streak_frame[OF assms(2) assms(1) k'(2)] by simp
  qed
  show ?thesis
    using streak_frame[OF assms(2) assms(1) assms(3)] later
    by (simp add: Let_def not_less)
qed

theorem grace_period_gate_witness:
  "poorQualityStartTime initial_page = None \<and>
   predictedLabel (frame [1/10, 7/10, 1/10, 1/10] 0) = Inr (Some ''blurry'') \<and>
   predictedLabel (frame [1/10, 7/10, 1/10, 1/10] 5000) = Inr (Some ''blurry'') \<and>
   predictedLabel (frame [1/10, 7/10, 1/10, 1/10] 20000) = Inr (Some ''blurry'') \<and>
   predictedLabel (frame [1/10, 7/10, 1/10, 1/10] 25000) = Inr (Some ''blurry'') \<and>
   ''blurry'' \<noteq> ''good_quality'' \<and>
   captureButton_disabled
     (prediction_loop [frame [1/10, 7/10, 1/10, 1/10] 0, frame [1/10, 7/10, 1/10, 1/10] 5000]
        initial_page) \<and>
   \<not> captureButton_disabled
     (prediction_loop [frame [1/10, 7/10, 1/10, 1/10] 0, frame [1/10, 7/10, 1/10, 1/10] 5000,
                       frame [1/10, 7/10, 1/10, 1/10] 20000] initial_page) \<and>
   overlayMessage_textContent
     (prediction_loop [frame [1/10, 7/10, 1/10, 1/10] 0, frame [1/10, 7/10, 1/10, 1/10] 5000,
                       frame [1/10, 7/10, 1/10, 1/10] 20000] initial_page)
     = ''You can take the picture now.'' \<and>
   \<not> captureButton_disabled
     (prediction_loop [frame [1/10, 7/10, 1/10, 1/10] 0, frame [1/10, 7/10, 1/10, 1/10] 5000,
                       frame [1/10, 7/10, 1/10, 1/10] 20000, frame [1/10, 7/10, 1/10, 1/10] 25000]
        initial_page)"
proof -
  let ?ts = "[frame [1/10, 7/10, 1/10, 1/10] 0, frame [1/10, 7/10, 1/10, 1/10] 5000,
              frame [1/10, 7/10, 1/10, 1/10] 20000, frame [1/10, 7/10, 1/10, 1/10] 25000]"
  have start: "poorQualityStartTime initial_page = None"
    by (simp add: initial_page_def)
  have poor: "\<forall>t \<in> set ?ts. \<exists>l. predictedLabel t = Inr (Some l) \<and> l \<noteq> ''good_quality''"
    by (simp add: frame_blurry)
  have mono: "sorted (map now_check ?ts)"
    by (simp add: frame_clock)
  have k1: "(1::nat) < length ?ts" and k2: "(2::nat) < length ?ts"
    by simp_all
  let ?at = "\<lambda>k. prediction_loop (take (Suc k) ?ts) initial_page"
  have early: "real_of_int (now_check (?ts ! 1) - now_start (?ts ! 0)) / 1000 < 20"
    and late: "real_of_int (now_check (?ts ! 2) - now_start (?ts ! 0)) / 1000 \<ge> 20"
    by (simp_all add: frame_clock)
  have at5: "captureButton_disabled (?at 1)"
    using grace_period_gate[OF start poor k1] early unfolding Let_def by blast
  have at20: "\<not> captureButton_disabled (?at 2)"
    "overlayMessage_textContent (?at 2) = ''You can take the picture now.''"
    using grace_period_gate[OF start poor k2] late unfolding Let_def by blast+
  have "\<forall>k'. 2 \<le> k' \<and> k' < length ?ts \<longrightarrow> \<not> captureButton_disabled (?at k')"
    using grace_period_gate[OF start poor k2] mono at20(1) unfolding Let_def by blast
  moreover have "(2::nat) \<le> 3 \<and> 3 < length ?ts"
    by simp
  ultimately have at25: "\<not> captureButton_disabled (?at 3)"
    by blast
  have takes: "take (Suc 1) ?ts = [frame [1/10, 7/10, 1/10, 1/10] 0, frame [1/10, 7/10, 1/10, 1/10] 5000]"
    "take (Suc 2) ?ts = [frame [1/10, 7/10, 1/10, 1/10] 0, frame [1/10, 7/10, 1/10, 1/10] 5000,
                       frame [1/10, 7/10, 1/10, 1/10] 20000]"
    "take (Suc 3) ?ts = ?ts"
    by simp_all
  show ?thesis
    using start at5 at20 at25 unfolding takes by (simp add: frame_blurry)
qed

lemma observed_append: "observed (ts @ us) = observed ts @ observed us"
  by (induction ts) (simp_all split: sum.splits option.splits)

lemma try_body_raises:
  assumes "try_body t s = Inl (e, s_raised)"
  shows "s_raised = s \<and> (predictedLabel t = Inl e \<or> (predictedLabel t = Inr None \<and> e = TypeError))"
  using assms
  by (auto simp: try_body_def updateUI_def Let_def split: sum.splits option.splits if_splits)

lemma runInference_raises:
  assumes "try_body t s = Inl (e, s_raised)"
  shows "runInference t s =
           s\<lparr>console := console s @ [Error ''Prediction failed:'' e], raf_queue := raf_queue s + 1\<rparr>"
  using try_body_raises[OF assms] assms by (simp add: runInference_def)

lemma runInference_unlabelled:
  assumes "\<not> (\<exists>l. predictedLabel t = Inr (Some l))"
  shows "poorQualityStartTime (runInference t s) = poorQualityStartTime s"
proof -
  have "\<exists>e. try_body t s = Inl (e, s)"
    using assms by (cases "predictedLabel t") (auto simp: try_body_def updateUI_def split: option.splits)
  then show ?thesis by (auto simp: runInference_def)
qed

lemma runInference_labelled:
  assumes "predictedLabel t = Inr (Some l)"
  shows "poorQualityStartTime (runInference t s) \<noteq> None \<longleftrightarrow> l \<noteq> ''good_quality''"
proof (cases "l = ''good_quality''")
  case True
  then show ?thesis using runInference_good[of t s] assms by simp
next
  case False
  then show ?thesis using runInference_poor[OF assms False, of s] by simp
qed

lemma timestamp_after_loop:
  "poorQualityStartTime (prediction_loop ts s) \<noteq> None \<longleftrightarrow>
     (if observed ts = [] then poorQualityStartTime s \<noteq> None
      else last (observed ts) \<noteq> ''good_quality'')"
proof (induction ts rule: rev_induct)
  case Nil
  then show ?case by simp
next
  case (snoc t ts)
  show ?case
  proof (cases "\<exists>l. predictedLabel t = Inr (Some l)")
    case True
    then obtain l where l: "predictedLabel t = Inr (Some l)" by blast
    then have "observed (ts @ [t]) = observed ts @ [l]"
      by (simp add: observed_append)
    then show ?thesis
      using runInference_labelled[OF l] by (simp add: prediction_loop_snoc)
  next
    case False
    then have "observed (ts @ [t]) = observed ts"
      by (auto simp: observed_append split: sum.splits option.splits)
    then show ?thesis
      using runInference_unlabelled[OF False] snoc.IH by (simp add: prediction_loop_snoc)
  qed
qed

text \<open>
  Claim C3. After any frames, \<^verbatim>\<open>poorQualityStartTime\<close> is set exactly when the last label
  that was observed is not \<^verbatim>\<open>good_quality\<close> (with no label observed it is as before). A
  frame labelled \<^verbatim>\<open>good_quality\<close> clears it from any state, enables the button, hides the
  overlay and puts \<^verbatim>\<open>Take Picture\<close> back on the button.
\<close>

theorem timestamp_tracks_streak:
  "(poorQualityStartTime (prediction_loop ts s) \<noteq> None \<longleftrightarrow>
      (if observed ts = [] then poorQualityStartTime s \<noteq> None
       else last (observed ts) \<noteq> ''good_quality'')) \<and>
   (predictedLabel t = Inr (Some ''good_quality'') \<longrightarrow>
      (let s' = runInference t s
       in poorQualityStartTime s' = None \<and> \<not> captureButton_disabled s' \<and>
          overlayMessage_display s' = ''none'' \<and>
          captureButton_textContent s' = ''Take Picture''))"
  using timestamp_after_loop[of ts s] runInference_good[of t s] by (simp add: Let_def)

theorem timestamp_tracks_streak_witness:
  "predictedLabel (frame [7/10, 1/10, 1/10, 1/10] 10000) = Inr (Some ''good_quality'') \<and>
   poorQualityStartTime
     (prediction_loop [frame [1/10, 7/10, 1/10, 1/10] 0, frame [1/10, 7/10, 1/10, 1/10] 5000]
        initial_page) \<noteq> None \<and>
   poorQualityStartTime
     (runInference (frame [7/10, 1/10, 1/10, 1/10] 10000)
        (prediction_loop [frame [1/10, 7/10, 1/10, 1/10] 0, frame [1/10, 7/10, 1/10, 1/10] 5000]
           initial_page)) = None \<and>
   \<not> captureButton_disabled
     (runInference (frame [7/10, 1/10, 1/10, 1/10] 10000)
        (prediction_loop [frame [1/10, 7/10, 1/10, 1/10] 0, frame [1/10, 7/10, 1/10, 1/10] 5000]
           initial_page))"
proof -
  let ?ts = "[frame [1/10, 7/10, 1/10, 1/10] 0, frame [1/10, 7/10, 1/10, 1/10] 5000]"
  let ?good = "frame [7/10, 1/10, 1/10, 1/10] 10000"
  have obs: "observed ?ts = [''blurry'', ''blurry'']"
    by (simp add: frame_blurry)
  have good: "predictedLabel ?good = Inr (Some ''good_quality'')"
    by (rule frame_good)
  have "poorQualityStartTime (prediction_loop ?ts initial_page) \<noteq> None \<longleftrightarrow>
      (if observed ?ts = [] then poorQualityStartTime initial_page \<noteq> None
       else last (observed ?ts) \<noteq> ''good_quality'')"
    using timestamp_tracks_streak[of ?ts initial_page ?good] by blast
  then have streak: "poorQualityStartTime (prediction_loop ?ts initial_page) \<noteq> None"
    unfolding obs by simp
  have "let s' = runInference ?good (prediction_loop ?ts initial_page)
        in poorQualityStartTime s' = None \<and> \<not> captureButton_disabled s' \<and>
           overlayMessage_display s' = ''none'' \<and> captureButton_textContent s' = ''Take Picture''"
    using timestamp_tracks_streak[of "[]" "prediction_loop ?ts initial_page" ?good] good by blast
  then show ?thesis
    using good streak unfolding Let_def by blast
qed

text \<open>
  Claim C10. On a frame that is not good and is 20 seconds or more into its streak,
  \<^verbatim>\<open>updateUI\<close> leaves \<^verbatim>\<open>Take Anyway\<close> on the enabled button while the overlay reads
  \<^verbatim>\<open>You can take the picture now.\<close>; a call of \<^verbatim>\<open>updateUI\<close> ends with \<^verbatim>\<open>Take Picture\<close>
  on the button exactly when its label is \<^verbatim>\<open>good_quality\<close>.
\<close>

theorem timed_out_button_text:
  "(l \<noteq> ''good_quality'' \<and>
    real_of_int (now2 - (case poorQualityStartTime s of None \<Rightarrow> now1 | Some t0 \<Rightarrow> t0)) / 1000 \<ge> 20 \<longrightarrow>
      (\<exists>s'. updateUI (Some l) now1 now2 s = Inr s' \<and>
            captureButton_textContent s' = ''Take Anyway'' \<and>
            overlayMessage_textContent s' = ''You can take the picture now.'' \<and>
            \<not> captureButton_disabled s')) \<and>
   (\<forall>s'. updateUI predicted now1 now2 s = Inr s' \<longrightarrow>
      (captureButton_textContent s' = ''Take Picture'' \<longleftrightarrow> predicted = Some ''good_quality''))"
proof -
  have a: "\<exists>s'. updateUI (Some l) now1 now2 s = Inr s' \<and>
            captureButton_textContent s' = ''Take Anyway'' \<and>
            overlayMessage_textContent s' = ''You can take the picture now.'' \<and>
            \<not> captureButton_disabled s'"
    if "l \<noteq> ''good_quality''"
      "real_of_int (now2 - (case poorQualityStartTime s of None \<Rightarrow> now1 | Some t0 \<Rightarrow> t0)) / 1000 \<ge> 20"
    using updateUI_poor[OF that(1), of now1 now2 s] that(2) by auto
  have b: "captureButton_textContent s' = ''Take Picture'' \<longleftrightarrow> predicted = Some ''good_quality''"
    if "updateUI predicted now1 now2 s = Inr s'" for s'
  proof (cases predicted)
    case None
    with that show ?thesis by (simp add: updateUI_def)
  next
    case (Some l')
    show ?thesis
    proof (cases "l' = ''good_quality''")
      case True
      with that Some show ?thesis by (auto simp: updateUI_good)
    next
      case False
      with that Some updateUI_poor[OF False, of now1 now2 s] show ?thesis by auto
    qed
  qed
  from a b show ?thesis by blast
qed

theorem timed_out_button_text_witness:
  "''too_dark'' \<noteq> ''good_quality'' \<and>
   real_of_int (25000 - (case poorQualityStartTime (initial_page\<lparr>poorQualityStartTime := Some 0\<rparr>)
                          of None \<Rightarrow> 25000 | Some t0 \<Rightarrow> t0)) / 1000 \<ge> 20 \<and>
   (\<exists>s'. updateUI (Some ''too_dark'') 25000 25000 (initial_page\<lparr>poorQualityStartTime := Some 0\<rparr>) = Inr s' \<and>
         captureButton_textContent s' = ''Take Anyway'' \<and>
         captureButton_textContent s' \<noteq> ''Take Picture'' \<and>
         overlayMessage_textContent s' = ''You can take the picture now.'' \<and>
         \<not> captureButton_disabled s')"
proof -
  have h: "''too_dark'' \<noteq> ''good_quality'' \<and>
     real_of_int (25000 - (case poorQualityStartTime (initial_page\<lparr>poorQualityStartTime := Some 0\<rparr>)
                          of None \<Rightarrow> 25000 | Some t0 \<Rightarrow> t0)) / 1000 \<ge> 20"
    by simp
  show ?thesis
    using timed_out_button_text
      [where l = "''too_dark''" and ?now1.0 = 25000 and ?now2.0 = 25000
         and s = "initial_page\<lparr>poorQualityStartTime := Some 0\<rparr>"
         and predicted = "Some ''too_dark''"] h
    by auto
qed

section \<open>A failing iteration\<close>

text \<open>
  Claim C5. When the \<^verbatim>\<open>try\<close> block of an iteration raises, the page is, at that moment,
  as the iteration found it; the iteration adds one line to the console, queues the next
  run and changes nothing else, and the next animation frame runs \<^verbatim>\<open>runInference\<close> again.
\<close>

theorem inference_failure_skips_frame:
  assumes "try_body t s = Inl (e, s_raised)"
  shows "s_raised = s \<and>
         runInference t s =
           s\<lparr>console := console s @ [Error ''Prediction failed:'' e],
             raf_queue := raf_queue s + 1\<rparr> \<and>
         fire (AnimationFrame t') (runInference t s) =
           runInference t' (s\<lparr>console := console s @ [Error ''Prediction failed:'' e]\<rparr>)"
  using try_body_raises[OF assms] runInference_raises[OF assms]
  by (simp add: fire_def)

theorem inference_failure_skips_frame_witness:
  "try_body \<lparr>run_outcome = Inl Thrown, now_start = 0, now_check = 0\<rparr> initial_page
     = Inl (Thrown, initial_page) \<and>
   runInference \<lparr>run_outcome = Inl Thrown, now_start = 0, now_check = 0\<rparr> initial_page
     = initial_page\<lparr>console := console initial_page @ [Error ''Prediction failed:'' Thrown],
                    raf_queue := raf_queue initial_page + 1\<rparr> \<and>
   try_body (frame [0, 0, 0, 0, 1] 0) initial_page = Inl (TypeError, initial_page) \<and>
   runInference (frame [0, 0, 0, 0, 1] 0) initial_page
     = initial_page\<lparr>console := console initial_page @ [Error ''Prediction failed:'' TypeError],
                    raf_queue := raf_queue initial_page + 1\<rparr>"
proof -
  have a: "try_body \<lparr>run_outcome = Inl Thrown, now_start = 0, now_check = 0\<rparr> initial_page
     = Inl (Thrown, initial_page)"
    by (simp add: try_body_def predictedLabel_def)
  have b: "try_body (frame [0, 0, 0, 0, 1] 0) initial_page = Inl (TypeError, initial_page)"
    by (simp add: try_body_def frame_unlabelled updateUI_def)
  show ?thesis
    using inference_failure_skips_frame[OF a] inference_failure_skips_frame[OF b] a b by simp
qed

section \<open>Start-up and the loop guard\<close>

lemma raf_queue_runInference: "raf_queue (runInference t s) = raf_queue s + 1"
  by (auto simp: runInference_def try_body_def updateUI_def Let_def
      split: sum.splits option.splits prod.splits)

lemma isPredicting_runInference: "isPredicting (runInference t s) = isPredicting s"
  by (auto simp: runInference_def try_body_def updateUI_def Let_def
      split: sum.splits option.splits prod.splits)

lemma one_loop_fire: "one_loop s \<Longrightarrow> one_loop (fire ev s)"
  by (cases ev)
    (auto simp: one_loop_def fire_def getUserMedia_then_def getUserMedia_catch_def
      onloadedmetadata_def startPredictionLoop_def raf_queue_runInference
      isPredicting_runInference)

lemma one_loop_run: "one_loop s \<Longrightarrow> one_loop (run evs s)"
  by (induction evs arbitrary: s) (simp_all add: one_loop_fire)

lemma one_loop_initializeModel: "fresh s \<Longrightarrow> one_loop (initializeModel outcome hasGetUserMedia s)"
  by (cases outcome) (simp_all add: one_loop_def fresh_def initializeModel_def startWebcam_def)

lemma halted_fire: "halted s \<Longrightarrow> fire ev s = s"
  by (cases ev) (simp_all add: halted_def fire_def)

lemma halted_run: "halted s \<Longrightarrow> run evs s = s"
  by (induction evs) (simp_all add: halted_fire)

text \<open>
  Claim C6. When the model does not load, the overlay shows
  \<^verbatim>\<open>Error loading model. Check console.\<close>, no camera request is made, no loop is started,
  and no later browser event changes the page.
\<close>

theorem model_load_failure_halts:
  assumes "fresh s" and "outcome \<noteq> Loaded"
  shows "let s' = initializeModel outcome hasGetUserMedia s
         in overlayMessage_textContent s' = ''Error loading model. Check console.'' \<and>
            overlayMessage_display s' = ''block'' \<and>
            \<not> modelLoaded s' \<and> getUserMedia_pending s' = 0 \<and> \<not> video_srcObject s' \<and>
            \<not> isPredicting s' \<and> raf_queue s' = 0 \<and>
            (\<forall>evs. run evs s' = s')"
proof -
  have h: "halted (initializeModel outcome hasGetUserMedia s)"
    using assms by (cases outcome) (simp_all add: halted_def fresh_def initializeModel_def)
  show ?thesis
    using assms halted_run[OF h]
    by (cases outcome) (simp_all add: Let_def fresh_def initializeModel_def)
qed

theorem model_load_failure_halts_witness:
  "fresh initial_page \<and> LoadRejects Thrown \<noteq> Loaded \<and>
   overlayMessage_textContent (initializeModel (LoadRejects Thrown) True initial_page)
     = ''Error loading model. Check console.'' \<and>
   getUserMedia_pending (initializeModel (LoadRejects Thrown) True initial_page) = 0 \<and>
   run [CameraGranted, LoadedMetadata (frame [7/10, 1/10, 1/10, 1/10] 0),
        AnimationFrame (frame [7/10, 1/10, 1/10, 1/10] 16)]
       (initializeModel (LoadRejects Thrown) True initial_page)
     = initializeModel (LoadRejects Thrown) True initial_page"
proof -
  have ne: "LoadRejects Thrown \<noteq> Loaded" by simp
  show ?thesis
    using model_load_failure_halts[OF fresh_initial_page ne, of True] fresh_initial_page
    by (simp add: Let_def)
qed

text \<open>
  Claim C8. \<^verbatim>\<open>startPredictionLoop\<close> returns at once, leaving the page as it is, when the
  model is not loaded or a loop is running; whatever events follow \<^verbatim>\<open>window.onload\<close>, at
  most one \<^verbatim>\<open>runInference\<close> callback is ever queued.
\<close>

theorem single_prediction_loop:
  "(\<not> modelLoaded s \<or> isPredicting s \<longrightarrow> startPredictionLoop t s = s) \<and>
   (fresh s0 \<longrightarrow> raf_queue (run evs (initializeModel outcome hasGetUserMedia s0)) \<le> 1)"
  using one_loop_run[OF one_loop_initializeModel, of s0 evs outcome hasGetUserMedia]
  by (auto simp: startPredictionLoop_def one_loop_def)

theorem single_prediction_loop_witness:
  "isPredicting (initial_page\<lparr>modelLoaded := True, isPredicting := True\<rparr>) \<and>
   startPredictionLoop (frame [7/10, 1/10, 1/10, 1/10] 0)
     (initial_page\<lparr>modelLoaded := True, isPredicting := True\<rparr>)
     = initial_page\<lparr>modelLoaded := True, isPredicting := True\<rparr> \<and>
   fresh initial_page \<and>
   raf_queue (run [CameraGranted, LoadedMetadata (frame [7/10, 1/10, 1/10, 1/10] 0),
                   LoadedMetadata (frame [7/10, 1/10, 1/10, 1/10] 8),
                   AnimationFrame (frame [7/10, 1/10, 1/10, 1/10] 16)]
                (initializeModel Loaded True initial_page)) \<le> 1"
  using single_prediction_loop
    [of "initial_page\<lparr>modelLoaded := True, isPredicting := True\<rparr>"
        "frame [7/10, 1/10, 1/10, 1/10] 0" initial_page
        "[CameraGranted, LoadedMetadata (frame [7/10, 1/10, 1/10, 1/10] 0),
          LoadedMetadata (frame [7/10, 1/10, 1/10, 1/10] 8),
          AnimationFrame (frame [7/10, 1/10, 1/10, 1/10] 16)]" Loaded True]
    fresh_initial_page
  by simp

text \<open>After a successful load the loop does run: the bound above is reached.\<close>

lemma loop_runs_after_load:
  "raf_queue (run [CameraGranted, LoadedMetadata (frame [7/10, 1/10, 1/10, 1/10] 0),
                   LoadedMetadata (frame [7/10, 1/10, 1/10, 1/10] 8),
                   AnimationFrame (frame [7/10, 1/10, 1/10, 1/10] 16)]
                (initializeModel Loaded True initial_page)) = 1"
  by (simp add: initializeModel_def startWebcam_def initial_page_def fire_def
      getUserMedia_then_def onloadedmetadata_def startPredictionLoop_def raf_queue_runInference
      isPredicting_runInference)

section \<open>argmax\<close>

lemma argmax_loop_scan:
  assumes "array = map Some xs"
    and "m < i" "i \<le> length xs" "maxv = Some (Some (xs ! m))"
    and "\<forall>j < i. xs ! j \<le> xs ! m" "\<forall>j < m. xs ! j < xs ! m"
  shows "argmax_loop array i maxv m < length xs \<and>
         (\<forall>j < length xs. xs ! j \<le> xs ! (argmax_loop array i maxv m)) \<and>
         (\<forall>j < argmax_loop array i maxv m. xs ! j < xs ! (argmax_loop array i maxv m))"
  using assms
proof (induction array i maxv m rule: argmax_loop.induct)
  case (1 array i maxv maxIndex)
  have len: "length array = length xs"
    using "1.prems"(1) by simp
  show ?case
  proof (cases "i < length array")
    case False
    then have "argmax_loop array i maxv maxIndex = maxIndex"
      by (subst argmax_loop.simps) simp
    moreover from False "1.prems" len have "i = length xs" by simp
    ultimately show ?thesis using "1.prems" by simp
  next
    case True
    then have cell: "js_index array i = Some (Some (xs ! i))"
      using "1.prems"(1) by (simp add: js_index_def)
    show ?thesis
    proof (cases "js_gt (js_index array i) maxv")
      case gt: True
      then have lt: "xs ! maxIndex < xs ! i"
        using cell "1.prems"(4) by simp
      have a: "\<forall>j < i + 1. xs ! j \<le> xs ! i"
        using "1.prems"(5) lt
        by (metis less_Suc_eq Suc_eq_plus1 order.strict_implies_order order.trans order_refl)
      have b: "\<forall>j < i. xs ! j < xs ! i"
        using "1.prems"(5) lt by (metis order.strict_trans1)
      have "argmax_loop array i maxv maxIndex = argmax_loop array (i + 1) (js_index array i) i"
        using True gt by (subst argmax_loop.simps) simp
      then show ?thesis
        using "1.IH"(1)[OF True gt "1.prems"(1)] True len a b cell by simp
    next
      case ngt: False
      then have le: "xs ! i \<le> xs ! maxIndex"
        using cell "1.prems"(4) by simp
      have a: "\<forall>j < i + 1. xs ! j \<le> xs ! maxIndex"
        using "1.prems"(5) le by (metis less_Suc_eq Suc_eq_plus1)
      have "argmax_loop array i maxv maxIndex = argmax_loop array (i + 1) maxv maxIndex"
        using True ngt by (subst argmax_loop.simps) simp
      then show ?thesis
        using "1.IH"(2)[OF True ngt "1.prems"(1)] True len a "1.prems" by simp
    qed
  qed
qed

text \<open>
  Claim C4, as amended. On a non-empty array of numbers, none of them NaN, \<^verbatim>\<open>argmax\<close>
  returns an index inside the array that holds the maximum, and every earlier position
  holds a strictly smaller value: among equal maxima the first wins. For
  \<^verbatim>\<open>[0.5, 0.5, 0.1, 0.1]\<close> this gives index 0. The arrays without NaN are the lists
  \<open>map Some xs\<close>; the order of the cells may be any linear order.
\<close>

theorem argmax_first_maximum:
  fixes xs :: "'a::linorder list"
  assumes "xs \<noteq> []"
  shows "argmax (map Some xs) < length xs \<and>
         xs ! argmax (map Some xs) = Max (set xs) \<and>
         (\<forall>j < argmax (map Some xs). xs ! j < xs ! argmax (map Some xs))"
proof -
  let ?a = "argmax (map Some xs)"
  have scan: "?a < length xs \<and>
         (\<forall>j < length xs. xs ! j \<le> xs ! ?a) \<and>
         (\<forall>j < ?a. xs ! j < xs ! ?a)"
    unfolding argmax_def
    using assms
    by (intro argmax_loop_scan[OF refl]) (auto simp: js_index_def less_Suc_eq_le Suc_le_eq)
  then have "xs ! ?a \<in> set xs"
    by simp
  moreover have "\<forall>x \<in> set xs. x \<le> xs ! ?a"
    using scan by (metis in_set_conv_nth)
  ultimately have "Max (set xs) = xs ! ?a"
    by (intro Max_eqI) auto
  with scan show ?thesis by simp
qed

theorem argmax_first_maximum_witness:
  "[1/2, 1/2, 1/10, 1/10 :: real] \<noteq> [] \<and>
   argmax (map Some [1/2, 1/2, 1/10, 1/10 :: real]) = 0"
proof -
  have ne: "[1/2, 1/2, 1/10, 1/10 :: real] \<noteq> []" by simp
  let ?a = "argmax (map Some [1/2, 1/2, 1/10, 1/10 :: real])"
  have "\<forall>j < ?a. [1/2, 1/2, 1/10, 1/10 :: real] ! j < [1/2, 1/2, 1/10, 1/10 :: real] ! ?a"
    and mx: "[1/2, 1/2, 1/10, 1/10 :: real] ! ?a = Max (set [1/2, 1/2, 1/10, 1/10 :: real])"
    using argmax_first_maximum[OF ne] by blast+
  then have "0 < ?a \<longrightarrow> 1/2 < [1/2, 1/2, 1/10, 1/10 :: real] ! ?a"
    by (metis nth_Cons_0)
  moreover have "[1/2, 1/2, 1/10, 1/10 :: real] ! ?a = 1/2"
    using mx by simp
  ultimately have "\<not> 0 < ?a"
    by (metis less_irrefl)
  then have "?a = 0"
    by (simp only: not_gr_zero)
  with ne show ?thesis by blast
qed

text \<open>
  Claim C4 as it is written, for every non-empty score array, fails on an array with a
  NaN cell: a comparison with NaN is false, so a NaN in the first cell is never replaced.
  On \<^verbatim>\<open>[NaN, 0.2, 0.9]\<close> the result is index 0, which holds NaN, while the greatest
  score 0.9 is at index 2.
\<close>

theorem argmax_nan_counterexample:
  "[None, Some (2/10), Some (9/10 :: real)] \<noteq> [] \<and>
   argmax [None, Some (2/10), Some (9/10 :: real)] = 0 \<and>
   js_index [None, Some (2/10), Some (9/10 :: real)] 0 = Some None \<and>
   js_index [None, Some (2/10), Some (9/10 :: real)] 2 = Some (Some (9/10)) \<and>
   js_gt (js_index [None, Some (2/10), Some (9/10 :: real)] 2)
         (js_index [None, Some (2/10), Some (9/10 :: real)] 1) \<and>
   argmax [None, Some (2/10), Some (9/10 :: real)] \<noteq> 2"
  by (simp add: argmax_def argmax_loop.simps js_index_def)

text \<open>A NaN in a later cell is passed over, and an array of NaN only gives index 0.\<close>

lemma argmax_passes_over_nan:
  "argmax [Some (2/10), None, Some (9/10 :: real)] = 2"
  "argmax [None, None, None :: real option] = 0"
  by (simp_all add: argmax_def argmax_loop.simps js_index_def)

text \<open>
  Claim C9. \<^verbatim>\<open>argmax\<close> of the empty array is 0, \<^verbatim>\<open>labels[0]\<close> is \<^verbatim>\<open>good_quality\<close>, so a
  frame whose first output tensor is empty is labelled \<^verbatim>\<open>good_quality\<close> and leaves the
  capture button enabled.
\<close>

theorem empty_scores_enable_capture:
  "argmax ([] :: real option list) = 0 \<and>
   js_index labels (argmax ([] :: real option list)) = Some ''good_quality'' \<and>
   predictedLabel (t\<lparr>run_outcome := Inr ([] # others)\<rparr>) = Inr (Some ''good_quality'') \<and>
   \<not> captureButton_disabled (runInference (t\<lparr>run_outcome := Inr ([] # others)\<rparr>) s)"
proof -
  have a: "argmax ([] :: real option list) = 0"
    by (simp add: argmax_def argmax_loop.simps)
  then have p: "predictedLabel (t\<lparr>run_outcome := Inr ([] # others)\<rparr>) = Inr (Some ''good_quality'')"
    by (simp add: predictedLabel_def js_index_def labels_def)
  show ?thesis
    using a p runInference_good[OF p, of s] by (simp add: js_index_def labels_def)
qed

section \<open>The layout written by preprocess\<close>

lemma slot_pixel:
  assumes "c < 3"
  shows "slot data (3 * p + c) = normalize (js_index data (p * 4 + c)) (mean ! c) (std ! c)"
proof -
  have "(3 * p + c) div 3 = p" "(3 * p + c) mod 3 = c"
    using assms by simp_all
  then show ?thesis by (simp add: slot_def mult.commute)
qed

lemma write_pixel:
  assumes filled: "\<forall>k < 3 * p. td ! k = slot data k" and room: "3 * p + 3 \<le> length td"
  shows "\<forall>k < 3 * (p + 1).
           td[3 * p := slot data (3 * p), 3 * p + 1 := slot data (3 * p + 1),
              3 * p + 2 := slot data (3 * p + 2)] ! k = slot data k"
proof (intro allI impI)
  fix k assume "k < 3 * (p + 1)"
  then have "k < 3 * p \<or> k = 3 * p \<or> k = 3 * p + 1 \<or> k = 3 * p + 2"
    by arith
  then show "td[3 * p := slot data (3 * p), 3 * p + 1 := slot data (3 * p + 1),
              3 * p + 2 := slot data (3 * p + 2)] ! k = slot data k"
    using filled room by (elim disjE) simp_all
qed

lemma preprocess_w_fills:
  assumes "w \<le> width" "offset = 3 * (h * width + w)" "3 * (h * width + width) \<le> length td"
    "\<forall>k < 3 * (h * width + w). td ! k = slot data k"
  shows "\<exists>td'. preprocess_w data width h w (td, offset) = (td', 3 * (h * width + width)) \<and>
          length td' = length td \<and> (\<forall>k < 3 * (h * width + width). td' ! k = slot data k)"
  using assms
proof (induction data width h w "(td, offset)" arbitrary: td offset rule: preprocess_w.induct)
  case (1 data width h w tensorData offset)
  show ?case
  proof (cases "w < width")
    case False
    then have "preprocess_w data width h w (tensorData, offset) = (tensorData, offset)"
      by (subst preprocess_w.simps) simp
    moreover from False "1.prems" have "w = width" by simp
    ultimately show ?thesis using "1.prems" by simp
  next
    case True
    let ?p = "h * width + w"
    let ?t1 = "tensorData[offset := normalize (js_index data (?p * 4 + 0)) (mean ! 0) (std ! 0)]"
    let ?t2 = "?t1[offset + 1 := normalize (js_index data (?p * 4 + 1)) (mean ! 1) (std ! 1)]"
    let ?t3 = "?t2[offset + 2 := normalize (js_index data (?p * 4 + 2)) (mean ! 2) (std ! 2)]"
    have step: "preprocess_w data width h w (tensorData, offset) =
                preprocess_w data width h (w + 1) (?t3, offset + 3)"
      using True by (subst preprocess_w.simps) (simp only: if_True Let_def)
    have t3: "?t3 = tensorData[3 * ?p := slot data (3 * ?p), 3 * ?p + 1 := slot data (3 * ?p + 1),
                 3 * ?p + 2 := slot data (3 * ?p + 2)]"
      using slot_pixel[of 0 data ?p] slot_pixel[of 1 data ?p] slot_pixel[of 2 data ?p]
      by (simp only: "1.prems"(2)) simp
    have room: "3 * ?p + 3 \<le> length tensorData"
      using True "1.prems"(3) by simp
    have filled: "\<forall>k < 3 * (h * width + (w + 1)). ?t3 ! k = slot data k"
      using write_pixel[OF "1.prems"(4) room] by (simp only: t3 add.assoc)
    have "\<exists>td'. preprocess_w data width h (w + 1) (?t3, offset + 3) = (td', 3 * (h * width + width)) \<and>
          length td' = length ?t3 \<and> (\<forall>k < 3 * (h * width + width). td' ! k = slot data k)"
    proof (rule "1.hyps"[OF True refl refl refl refl])
      show "w + 1 \<le> width" using True by simp
      show "offset + 3 = 3 * (h * width + (w + 1))" using "1.prems"(2) by simp
      show "3 * (h * width + width) \<le> length ?t3" using "1.prems"(3) by simp
      show "\<forall>k < 3 * (h * width + (w + 1)). ?t3 ! k = slot data k" by (rule filled)
    qed
    then show ?thesis using step by simp
  qed
qed

lemma preprocess_h_fills:
  assumes "h \<le> height" "snd st = 3 * (h * width)" "3 * (height * width) \<le> length (fst st)"
    "\<forall>k < 3 * (h * width). fst st ! k = slot data k"
  shows "\<exists>td'. preprocess_h data width height h st = (td', 3 * (height * width)) \<and>
          length td' = length (fst st) \<and> (\<forall>k < 3 * (height * width). td' ! k = slot data k)"
  using assms
proof (induction data width height h st rule: preprocess_h.induct)
  case (1 data width height h st)
  obtain td offset where st: "st = (td, offset)" by (cases st)
  show ?case
  proof (cases "h < height")
    case False
    then have "preprocess_h data width height h st = st"
      by (subst preprocess_h.simps) simp
    moreover from False "1.prems" have "h = height" by simp
    ultimately show ?thesis using "1.prems" st by simp
  next
    case True
    have step: "preprocess_h data width height h st =
                preprocess_h data width height (h + 1) (preprocess_w data width h 0 st)"
      using True by (subst preprocess_h.simps) simp
    have "(h + 1) * width \<le> height * width"
      using True by (intro mult_le_mono1) simp
    then have room: "3 * (h * width + width) \<le> length td"
      using "1.prems"(3) st by simp
    obtain td1 where row: "preprocess_w data width h 0 st = (td1, 3 * (h * width + width))"
        "length td1 = length td" "\<forall>k < 3 * (h * width + width). td1 ! k = slot data k"
      using preprocess_w_fills[of 0 width offset h td data] "1.prems"(2,4) room st
      by auto
    have "\<exists>td'. preprocess_h data width height (h + 1) (preprocess_w data width h 0 st) =
             (td', 3 * (height * width)) \<and>
          length td' = length (fst (preprocess_w data width h 0 st)) \<and>
          (\<forall>k < 3 * (height * width). td' ! k = slot data k)"
    proof (rule "1.IH"[OF True])
      show "h + 1 \<le> height" using True by simp
      show "snd (preprocess_w data width h 0 st) = 3 * ((h + 1) * width)"
        using row(1) by simp
      show "3 * (height * width) \<le> length (fst (preprocess_w data width h 0 st))"
        using row(1,2) "1.prems"(3) st by simp
      show "\<forall>k < 3 * ((h + 1) * width). fst (preprocess_w data width h 0 st) ! k = slot data k"
        using row(1,3) by simp
    qed
    then show ?thesis using step row(1,2) st by simp
  qed
qed

lemma preprocess_slot:
  assumes "k < 3 * img_width img * img_height img"
  shows "tensor_data (preprocess img) ! k = slot (img_data img) k"
    and "tensor_dims (preprocess img) = [1, 3, img_height img, img_width img]"
    and "length (tensor_data (preprocess img)) = 3 * img_width img * img_height img"
proof -
  let ?st = "(replicate (3 * img_width img * img_height img) (Some (0::real)), 0::nat)"
  obtain td' where run: "preprocess_h (img_data img) (img_width img) (img_height img) 0 ?st =
        (td', 3 * (img_height img * img_width img))"
      "length td' = length (fst ?st)"
      "\<forall>k < 3 * (img_height img * img_width img). td' ! k = slot (img_data img) k"
    using preprocess_h_fills[of 0 "img_height img" ?st "img_width img" "img_data img"]
    by (auto simp: mult.commute)
  have p: "preprocess img = \<lparr>tensor_data = td', tensor_type = ''float32'',
          tensor_dims = [1, 3, img_height img, img_width img]\<rparr>"
    using run(1) by (simp add: preprocess_def Let_def)
  show "tensor_data (preprocess img) ! k = slot (img_data img) k"
    using p run(3) assms by (simp add: mult.commute mult.left_commute)
  show "tensor_dims (preprocess img) = [1, 3, img_height img, img_width img]"
    using p by simp
  show "length (tensor_data (preprocess img)) = 3 * img_width img * img_height img"
    using p run(2) by simp
qed

lemma uniform_frame_pixel:
  assumes "i < 4 * 224 * 224"
  shows "js_index (img_data (uniform_frame r g b)) i = Some ([r, g, b, 255] ! (i mod 4))"
  using assms by (simp add: uniform_frame_def js_index_def)

text \<open>
  Claim C2. \<^verbatim>\<open>preprocess\<close> scales, centres and divides each colour value as stated and
  declares the dims \<^verbatim>\<open>[1, 3, height, width]\<close>, but it does not reorder: on the 224 by 224
  frame whose pixels are all (255, 0, 0), the element at position \<^verbatim>\<open>[0, 0, 0, 1]\<close> (channel
  0, row 0, column 1) is the normalised green of pixel (0, 0), not the normalised red of
  pixel (0, 1) that the channel-first layout has there.
\<close>

theorem preprocess_keeps_interleaved:
  "tensor_dims (preprocess (uniform_frame 255 0 0)) = [1, 3, 224, 224] \<and>
   row_major [1, 3, 224, 224] [0, 0, 0, 1] = 1 \<and>
   tensor_at (preprocess (uniform_frame 255 0 0)) [0, 0, 0, 1] = Some ((0 / 255 - 0.456) / 0.224) \<and>
   normalize (js_index (img_data (uniform_frame 255 0 0)) ((0 * 224 + 1) * 4 + 0)) (mean ! 0) (std ! 0)
     = Some ((255 / 255 - 0.485) / 0.229) \<and>
   tensor_at (preprocess (uniform_frame 255 0 0)) [0, 0, 0, 1] \<noteq>
     normalize (js_index (img_data (uniform_frame 255 0 0)) ((0 * 224 + 1) * 4 + 0)) (mean ! 0) (std ! 0)"
proof -
  have dims: "tensor_dims (preprocess (uniform_frame 255 0 0)) = [1, 3, 224, 224]"
    using preprocess_slot(2)[of 0 "uniform_frame 255 0 0"] by (simp add: uniform_frame_def)
  have rm: "row_major [1, 3, 224, 224] [0, 0, 0, 1] = 1"
    by (simp add: row_major_def)
  have "tensor_data (preprocess (uniform_frame 255 0 0)) ! 1 = slot (img_data (uniform_frame 255 0 0)) 1"
    by (rule preprocess_slot(1)) (simp add: uniform_frame_def)
  also have "\<dots> = Some ((0 / 255 - 0.456) / 0.224)"
    by (simp add: slot_def uniform_frame_pixel normalize_def mean_def std_def)
  finally have at: "tensor_at (preprocess (uniform_frame 255 0 0)) [0, 0, 0, 1] = Some ((0 / 255 - 0.456) / 0.224)"
    by (simp add: tensor_at_def dims row_major_def)
  have want: "normalize (js_index (img_data (uniform_frame 255 0 0)) ((0 * 224 + 1) * 4 + 0)) (mean ! 0) (std ! 0)
     = Some ((255 / 255 - 0.485) / 0.229)"
    by (simp add: uniform_frame_pixel normalize_def mean_def std_def)
  show ?thesis
    unfolding at want using dims rm by simp
qed

text \<open>
  Claim C7. On the uniform gray frame (128, 128, 128) the tensor made by \<^verbatim>\<open>preprocess\<close>
  holds at position \<^verbatim>\<open>[0, 0, 0, 1]\<close>, inside channel 0, the value
  \<open>(128/255 - mean[1]) / std[1]\<close>, which is more than 0.1 away from
  \<open>(128/255 - mean[0]) / std[0]\<close>.
\<close>

theorem gray_frame_channel_values:
  "row_major (tensor_dims (preprocess (uniform_frame 128 128 128))) [0, 0, 0, 1] = 1 \<and>
   tensor_at (preprocess (uniform_frame 128 128 128)) [0, 0, 0, 1] =
     Some ((128 / 255 - mean ! 1) / std ! 1) \<and>
   (128 / 255 - mean ! 1) / std ! 1 - (128 / 255 - mean ! 0) / std ! 0 > 1 / 10"
proof -
  have dims: "tensor_dims (preprocess (uniform_frame 128 128 128)) = [1, 3, 224, 224]"
    using preprocess_slot(2)[of 0 "uniform_frame 128 128 128"] by (simp add: uniform_frame_def)
  have rm: "row_major [1, 3, 224, 224] [0, 0, 0, 1] = 1"
    by (simp add: row_major_def)
  have "tensor_data (preprocess (uniform_frame 128 128 128)) ! 1 =
        slot (img_data (uniform_frame 128 128 128)) 1"
    by (rule preprocess_slot(1)) (simp add: uniform_frame_def)
  also have "\<dots> = Some ((128 / 255 - mean ! 1) / std ! 1)"
    by (simp add: slot_def uniform_frame_pixel normalize_def)
  finally have at: "tensor_at (preprocess (uniform_frame 128 128 128)) [0, 0, 0, 1] =
     Some ((128 / 255 - mean ! 1) / std ! 1)"
    by (simp add: tensor_at_def dims row_major_def)
  have far: "(128 / 255 - mean ! 1) / std ! 1 - (128 / 255 - mean ! 0) / std ! 0 > 1 / 10"
    by (simp add: mean_def std_def)
  show ?thesis using at far dims rm by simp
qed

end
